theory Spec2Isabelle
  imports Complex_Main "HOL-Library.Multiset"
begin

section \<open>Python values used by \<open>process_pdfs.py\<close>\<close>

text \<open>
  A Python \<open>str\<close> is a sequence of Unicode code points, and \<open>len\<close> counts code points;
  a character is modelled by its code point and a string by the list of them.
  \<open>ustr\<close> turns an ASCII literal into such a string.
\<close>

type_synonym pstr = "nat list"

definition ustr :: "string \<Rightarrow> pstr" where
  "ustr s = map of_char s"

text \<open>
  What the interpreter supplies and the source does not contain: the Unicode character
  database for the code points from 128 on (the classifications of ASCII characters are
  written out below), \<open>str.lower\<close> on strings that are not pure ASCII, and the rounding of a
  rational to the nearest binary floating-point number, \<open>fl\<close>. Every function below takes
  these as the parameter \<open>E\<close>.
\<close>

record py_env =
  uni_isspace :: "nat \<Rightarrow> bool"
  uni_isupper :: "nat \<Rightarrow> bool"
  uni_islower :: "nat \<Rightarrow> bool"
  uni_istitle :: "nat \<Rightarrow> bool"
  uni_isdigit :: "nat \<Rightarrow> bool"
  uni_isdecimal :: "nat \<Rightarrow> bool"
  uni_lower :: "pstr \<Rightarrow> pstr"
  fl :: "rat \<Rightarrow> rat"

datatype py_error = ZeroDivisionError | IndexError

subsection \<open>Character classes\<close>

definition ch_isspace :: "py_env \<Rightarrow> nat \<Rightarrow> bool" where
  "ch_isspace E c =
     (if c < 128 then (9 \<le> c \<and> c \<le> 13) \<or> (28 \<le> c \<and> c \<le> 32) else uni_isspace E c)"

definition ch_isupper :: "py_env \<Rightarrow> nat \<Rightarrow> bool" where
  "ch_isupper E c = (if c < 128 then 65 \<le> c \<and> c \<le> 90 else uni_isupper E c)"

definition ch_islower :: "py_env \<Rightarrow> nat \<Rightarrow> bool" where
  "ch_islower E c = (if c < 128 then 97 \<le> c \<and> c \<le> 122 else uni_islower E c)"

definition ch_istitle :: "py_env \<Rightarrow> nat \<Rightarrow> bool" where
  "ch_istitle E c = (if c < 128 then False else uni_istitle E c)"

definition ch_isdigit :: "py_env \<Rightarrow> nat \<Rightarrow> bool" where
  "ch_isdigit E c = (if c < 128 then 48 \<le> c \<and> c \<le> 57 else uni_isdigit E c)"

definition ch_isdecimal :: "py_env \<Rightarrow> nat \<Rightarrow> bool" where
  "ch_isdecimal E c = (if c < 128 then 48 \<le> c \<and> c \<le> 57 else uni_isdecimal E c)"

subsection \<open>String methods\<close>

definition strip :: "py_env \<Rightarrow> pstr \<Rightarrow> pstr" where
  "strip E s = rev (dropWhile (ch_isspace E) (rev (dropWhile (ch_isspace E) s)))"

text \<open>\<open>s.split()\<close>: the maximal runs of non-whitespace characters; \<open>cur\<close> is the run being
  read, reversed.\<close>

fun split_run :: "py_env \<Rightarrow> pstr \<Rightarrow> pstr \<Rightarrow> pstr list" where
  "split_run E cur [] = (if cur = [] then [] else [rev cur])"
| "split_run E cur (c # cs) =
     (if ch_isspace E c
      then (if cur = [] then split_run E [] cs else rev cur # split_run E [] cs)
      else split_run E (c # cur) cs)"

definition split :: "py_env \<Rightarrow> pstr \<Rightarrow> pstr list" where
  "split E s = split_run E [] s"

fun join :: "pstr \<Rightarrow> pstr list \<Rightarrow> pstr" where
  "join sep [] = []"
| "join sep [x] = x"
| "join sep (x # y # ys) = x @ sep @ join sep (y # ys)"

definition startswith :: "pstr \<Rightarrow> pstr \<Rightarrow> bool" where
  "startswith s p = (take (length p) s = p)"

definition endswith :: "pstr \<Rightarrow> pstr \<Rightarrow> bool" where
  "endswith s p = (length p \<le> length s \<and> drop (length s - length p) s = p)"

text \<open>\<open>contains s sub\<close> is Python's \<open>sub in s\<close>.\<close>

fun contains :: "pstr \<Rightarrow> pstr \<Rightarrow> bool" where
  "contains [] sub = (sub = [])"
| "contains (c # cs) sub = (startswith (c # cs) sub \<or> contains cs sub)"

text \<open>\<open>str.islower\<close>: a one-character string is lowercase when its character is; a longer
  one when it has no uppercase or titlecase character and at least one lowercase one.\<close>

definition islower :: "py_env \<Rightarrow> pstr \<Rightarrow> bool" where
  "islower E s =
     (case s of
        [] \<Rightarrow> False
      | [c] \<Rightarrow> ch_islower E c
      | _ \<Rightarrow> list_all (\<lambda>c. \<not> ch_isupper E c \<and> \<not> ch_istitle E c) s
             \<and> list_ex (ch_islower E) s)"

definition ascii_lower :: "nat \<Rightarrow> nat" where
  "ascii_lower c = (if 65 \<le> c \<and> c \<le> 90 then c + 32 else c)"

definition lower :: "py_env \<Rightarrow> pstr \<Rightarrow> pstr" where
  "lower E s = (if list_all (\<lambda>c. c < 128) s then map ascii_lower s else uni_lower E s)"

text \<open>\<open>round(x)\<close> with one argument: the nearest integer, a tie going to the even one.\<close>

definition py_round :: "rat \<Rightarrow> int" where
  "py_round x =
     (let f = \<lfloor>x\<rfloor>; d = x - of_int f
      in if d < 1 / 2 then f else if 1 / 2 < d then f + 1
         else if even f then f else f + 1)"

subsection \<open>Regular expressions\<close>

text \<open>
  The fragment of \<open>re\<close> patterns the source uses, without groups' captures (the source
  only tests whether a match exists). A pattern matches at the start of a string when some
  prefix of the string belongs to its language; \<open>re_match r s\<close> decides that by taking the
  derivative of \<open>r\<close> by each character of \<open>s\<close> in turn, and is the truth value of
  \<open>re.match(r, s)\<close>.
\<close>

datatype regex =
    Zero
  | One
  | Cls "nat \<Rightarrow> bool"
  | Seq regex regex
  | Alt regex regex
  | Star regex

definition Opt :: "regex \<Rightarrow> regex" where
  "Opt a = Alt a One"

definition Plus :: "regex \<Rightarrow> regex" where
  "Plus a = Seq a (Star a)"

fun nullable :: "regex \<Rightarrow> bool" where
  "nullable Zero = False"
| "nullable One = True"
| "nullable (Cls p) = False"
| "nullable (Seq a b) = (nullable a \<and> nullable b)"
| "nullable (Alt a b) = (nullable a \<or> nullable b)"
| "nullable (Star a) = True"

fun deriv :: "nat \<Rightarrow> regex \<Rightarrow> regex" where
  "deriv c Zero = Zero"
| "deriv c One = Zero"
| "deriv c (Cls p) = (if p c then One else Zero)"
| "deriv c (Seq a b) =
     (if nullable a then Alt (Seq (deriv c a) b) (deriv c b) else Seq (deriv c a) b)"
| "deriv c (Alt a b) = Alt (deriv c a) (deriv c b)"
| "deriv c (Star a) = Seq (deriv c a) (Star a)"

fun re_match :: "regex \<Rightarrow> pstr \<Rightarrow> bool" where
  "re_match r [] = nullable r"
| "re_match r (c # cs) = (nullable r \<or> re_match (deriv c r) cs)"

text \<open>The pattern \<^verbatim>\<open>^\s*(\d+(\.\d+)*|[A-Z]|[a-z]|[IVXLCDM]+)\.?\s+\<close>.\<close>

definition list_marker_pattern :: "py_env \<Rightarrow> regex" where
  "list_marker_pattern E =
     Seq (Star (Cls (ch_isspace E)))
       (Seq (Alt (Seq (Plus (Cls (ch_isdecimal E)))
                      (Star (Seq (Cls (\<lambda>c. c = 46)) (Plus (Cls (ch_isdecimal E))))))
              (Alt (Cls (\<lambda>c. 65 \<le> c \<and> c \<le> 90))
                (Alt (Cls (\<lambda>c. 97 \<le> c \<and> c \<le> 122))
                     (Plus (Cls (\<lambda>c. c \<in> set (ustr ''IVXLCDM'')))))))
         (Seq (Opt (Cls (\<lambda>c. c = 46))) (Plus (Cls (ch_isspace E)))))"

section \<open>The layout normalizer's data\<close>

record span =
  span_text :: pstr
  span_size :: rat
  span_font :: pstr

record line =
  spans :: "span list"

text \<open>A block whose dictionary has no \<open>lines\<close> key (an image block) has \<open>block_lines = []\<close>,
  which is what \<open>block.get("lines", [])\<close> reads there.\<close>

record block =
  block_type :: int
  block_lines :: "line list"

type_synonym page = "block list"

type_synonym document = "page list"

section \<open>Heading classifier\<close>

datatype level = H1 | H2 | H3

definition is_bold :: "py_env \<Rightarrow> span \<Rightarrow> bool" where
  "is_bold E sp =
     (let font_name = lower E (span_font sp)
      in contains font_name (ustr ''bold'') \<or> contains font_name (ustr ''black'')
         \<or> contains font_name (ustr ''heavy''))"

text \<open>\<open>text[0]\<close> raises IndexError on the empty string.\<close>

definition first_char :: "pstr \<Rightarrow> py_error + nat" where
  "first_char s = (case s of [] \<Rightarrow> Inl IndexError | c # _ \<Rightarrow> Inr c)"

text \<open>\<open>size / body_font_size\<close> on two integers: ZeroDivisionError when the divisor is 0,
  otherwise the quotient rounded to a floating-point number. The literals \<open>1.8\<close>,
  \<open>1.35\<close> and \<open>1.15\<close> it is compared with are the roundings of 9/5, 27/20 and 23/20.\<close>

definition true_div :: "py_env \<Rightarrow> int \<Rightarrow> int \<Rightarrow> py_error + rat" where
  "true_div E a b = (if b = 0 then Inl ZeroDivisionError else Inr (fl E (of_int a / of_int b)))"

definition is_list_marker :: "py_env \<Rightarrow> pstr \<Rightarrow> bool" where
  "is_list_marker E t = re_match (list_marker_pattern E) t"

text \<open>The six noise filters of \<open>classify_heading\<close>, in the source's order; the result is
  \<open>Inr True\<close> when one of them rejects the (stripped) text.\<close>

definition noise_filter :: "py_env \<Rightarrow> pstr \<Rightarrow> py_error + bool" where
  "noise_filter E t =
     (let words = split E t
      in if length t < 3 then Inr True
         else if (endswith t [44] \<or> endswith t [59] \<or> endswith t [8212] \<or> endswith t [46]
                  \<or> endswith t [8211] \<or> endswith t [58])
                 \<or> (islower E t \<and> 4 < length words) then Inr True
         else if (startswith t (ustr ''[['') \<or> startswith t (ustr ''('')
                  \<or> startswith t (ustr ''http''))
                 \<or> endswith t (ustr '')'') \<or> contains t (ustr ''.git'') then Inr True
         else (case first_char t of
                 Inl e \<Rightarrow> Inl e
               | Inr c \<Rightarrow>
                   if \<not> (ch_isupper E c \<or> ch_isdigit E c) then Inr True
                   else if 8 < length words then Inr True
                   else if (length words = 2 \<or> length words = 3)
                           \<and> islower E (join [32] (tl words)) then Inr True
                   else Inr False))"

definition classify_heading :: "py_env \<Rightarrow> pstr \<Rightarrow> span \<Rightarrow> int \<Rightarrow> py_error + level option" where
  "classify_heading E txt sp body_font_size =
     (let size = py_round (span_size sp);
          t = strip E txt
      in case noise_filter E t of
           Inl e \<Rightarrow> Inl e
         | Inr True \<Rightarrow> Inr None
         | Inr False \<Rightarrow>
             (let is_heading_font = (body_font_size < size);
                  is_bold_font = is_bold E sp
              in if \<not> (is_heading_font \<or> is_bold_font) then Inr None
                 else
                   (let is_marker = is_list_marker E t
                    in case true_div E size body_font_size of
                         Inl e \<Rightarrow> Inl e
                       | Inr size_ratio \<Rightarrow>
                           if fl E (9 / 5) < size_ratio \<and> is_bold_font then Inr (Some H1)
                           else if fl E (27 / 20) < size_ratio
                                   \<or> (is_bold_font \<and> fl E (23 / 20) < size_ratio)
                           then Inr (Some H2)
                           else if is_heading_font \<or> is_bold_font \<or> is_marker
                           then Inr (Some H3)
                           else Inr None)))"

section \<open>Font baseline estimator\<close>

text \<open>
  \<open>font_sizes\<close> is a \<open>defaultdict(int)\<close>; a Python dictionary keeps its keys in the order
  of their first insertion, which \<open>max\<close> then iterates, so it is an association list.
  \<open>bump h k n\<close> is \<open>h[k] += n\<close>.
\<close>

type_synonym histogram = "(int \<times> nat) list"

fun bump :: "histogram \<Rightarrow> int \<Rightarrow> nat \<Rightarrow> histogram" where
  "bump [] k n = [(k, n)]"
| "bump ((k', v) # h) k n = (if k' = k then (k', v + n) # h else (k', v) # bump h k n)"

definition count_span :: "histogram \<Rightarrow> span \<Rightarrow> histogram" where
  "count_span h sp =
     (if 7 < span_size sp
      then bump h (py_round (span_size sp)) (length (span_text sp))
      else h)"

definition count_line :: "histogram \<Rightarrow> line \<Rightarrow> histogram" where
  "count_line h l = fold (\<lambda>sp h. count_span h sp) (spans l) h"

definition count_block :: "histogram \<Rightarrow> block \<Rightarrow> histogram" where
  "count_block h b = fold (\<lambda>l h. count_line h l) (block_lines b) h"

definition count_page :: "histogram \<Rightarrow> page \<Rightarrow> histogram" where
  "count_page h p = fold (\<lambda>b h. count_block h b) p h"

definition font_histogram :: "document \<Rightarrow> histogram" where
  "font_histogram doc = fold (\<lambda>p h. count_page h p) doc []"

text \<open>\<open>max(font_sizes, key=font_sizes.get)\<close>: the keys are visited in order and the best
  one so far is replaced only by a key with a strictly larger value.\<close>

fun max_key :: "int \<times> nat \<Rightarrow> histogram \<Rightarrow> int" where
  "max_key (k, v) [] = k"
| "max_key (k, v) ((k', v') # h) = (if v < v' then max_key (k', v') h else max_key (k, v) h)"

definition analyze_font_styles :: "document \<Rightarrow> int" where
  "analyze_font_styles doc =
     (case font_histogram doc of
        [] \<Rightarrow> 12
      | kv # h \<Rightarrow> max_key kv h)"

section \<open>Title detector\<close>

text \<open>\<open>statistics.mean\<close> of floating-point numbers: the exact mean, rounded once.\<close>

definition mean :: "py_env \<Rightarrow> rat list \<Rightarrow> rat" where
  "mean E xs = fl E (sum_list xs / of_nat (length xs))"

definition nonempty_spans :: "py_env \<Rightarrow> block \<Rightarrow> span list" where
  "nonempty_spans E b =
     filter (\<lambda>sp. strip E (span_text sp) \<noteq> []) (concat (map spans (block_lines b)))"

text \<open>One iteration of the loop over the first page's blocks; the state is
  \<open>(max_avg_size, title_block)\<close>. The product \<open>body_font_size * 1.5\<close> is a
  floating-point one.\<close>

definition title_step :: "py_env \<Rightarrow> int \<Rightarrow> rat \<times> block option \<Rightarrow> block \<Rightarrow> rat \<times> block option" where
  "title_step E body_font_size st b =
     (if block_type b = 0
      then (let sps = nonempty_spans E b
            in if sps = [] then st
               else (let avg_size = mean E (map span_size sps)
                     in if fl E (of_int body_font_size * (3 / 2)) < avg_size \<and> fst st < avg_size
                        then (avg_size, Some b)
                        else st))
      else st)"

definition find_title_block :: "py_env \<Rightarrow> int \<Rightarrow> page \<Rightarrow> block option" where
  "find_title_block E body_font_size blocks =
     snd (fold (\<lambda>b st. title_step E body_font_size st b) blocks (0, None))"

definition line_text :: "py_env \<Rightarrow> line \<Rightarrow> pstr" where
  "line_text E l = strip E (join [32] (map span_text (spans l)))"

definition block_title :: "py_env \<Rightarrow> block \<Rightarrow> pstr" where
  "block_title E b = join [32] (filter (\<lambda>t. t \<noteq> []) (map (line_text E) (block_lines b)))"

text \<open>\<open>os.path.basename\<close> on a POSIX path: what follows the last \<open>/\<close>.\<close>

definition basename :: "pstr \<Rightarrow> pstr" where
  "basename p = rev (takeWhile (\<lambda>c. c \<noteq> 47) (rev p))"

definition detect_title :: "py_env \<Rightarrow> pstr \<Rightarrow> int \<Rightarrow> page \<Rightarrow> pstr" where
  "detect_title E pdf_path body_font_size first_page =
     (let title = (case find_title_block E body_font_size first_page of
                     None \<Rightarrow> []
                   | Some b \<Rightarrow> block_title E b)
      in if title = [] \<or> length title < 5 then basename pdf_path else title)"

section \<open>Heading detection and the outline\<close>

record entry =
  entry_level :: level
  entry_text :: pstr
  entry_page :: nat

record pdf_structure =
  title :: pstr
  outline :: "entry list"

text \<open>The body of the loop over lines: the outline so far goes in, the outline after the
  line comes out, or the error \<open>classify_heading\<close> raised.\<close>

definition process_line ::
  "py_env \<Rightarrow> pstr \<Rightarrow> int \<Rightarrow> nat \<Rightarrow> entry list \<Rightarrow> line \<Rightarrow> py_error + entry list" where
  "process_line E ttl body_font_size page_num ol l =
     (case spans l of
        [] \<Rightarrow> Inr ol
      | first_span # _ \<Rightarrow>
          (let lt = line_text E l
           in if ttl \<noteq> [] \<and> contains ttl lt then Inr ol
              else (case classify_heading E lt first_span body_font_size of
                      Inl e \<Rightarrow> Inl e
                    | Inr None \<Rightarrow> Inr ol
                    | Inr (Some lv) \<Rightarrow>
                        if \<not> list_ex (\<lambda>d. entry_text d = lt) ol
                        then Inr (ol @ [\<lparr>entry_level = lv, entry_text = lt,
                                         entry_page = page_num + 1\<rparr>])
                        else Inr ol)))"

text \<open>A \<open>for\<close> loop whose body may raise: the first error ends it.\<close>

fun for_each :: "('s \<Rightarrow> 'a \<Rightarrow> py_error + 's) \<Rightarrow> 'a list \<Rightarrow> 's \<Rightarrow> py_error + 's" where
  "for_each f [] s = Inr s"
| "for_each f (x # xs) s = (case f s x of Inl e \<Rightarrow> Inl e | Inr s' \<Rightarrow> for_each f xs s')"

definition process_block ::
  "py_env \<Rightarrow> pstr \<Rightarrow> int \<Rightarrow> nat \<Rightarrow> entry list \<Rightarrow> block \<Rightarrow> py_error + entry list" where
  "process_block E ttl body_font_size page_num ol b =
     for_each (process_line E ttl body_font_size page_num) (block_lines b) ol"

definition process_page ::
  "py_env \<Rightarrow> pstr \<Rightarrow> int \<Rightarrow> entry list \<Rightarrow> nat \<times> page \<Rightarrow> py_error + entry list" where
  "process_page E ttl body_font_size ol np =
     for_each (process_block E ttl body_font_size (fst np)) (snd np) ol"

definition detect_headings :: "py_env \<Rightarrow> pstr \<Rightarrow> int \<Rightarrow> document \<Rightarrow> py_error + entry list" where
  "detect_headings E ttl body_font_size doc =
     for_each (process_page E ttl body_font_size) (zip [0..<length doc] doc) []"

text \<open>
  \<open>extract_structure_from_pdf\<close>. The second argument is what \<open>fitz.open(pdf_path)\<close> gives:
  \<open>None\<close> when it raises, the pages otherwise. The result is \<open>Inr None\<close> for Python's
  \<open>None\<close>, \<open>Inr (Some r)\<close> for a returned dictionary and \<open>Inl e\<close> for an exception that
  leaves the function.
\<close>

definition extract_structure_from_pdf ::
  "py_env \<Rightarrow> pstr \<Rightarrow> document option \<Rightarrow> py_error + pdf_structure option" where
  "extract_structure_from_pdf E pdf_path opened =
     (case opened of
        None \<Rightarrow> Inr None
      | Some doc \<Rightarrow>
          (case doc of
             [] \<Rightarrow> Inr (Some \<lparr>title = [], outline = []\<rparr>)
           | first_page # _ \<Rightarrow>
               (let body_font_size = analyze_font_styles doc;
                    ttl = detect_title E pdf_path body_font_size first_page
                in case detect_headings E ttl body_font_size doc of
                     Inl e \<Rightarrow> Inl e
                   | Inr ol \<Rightarrow> Inr (Some \<lparr>title = ttl, outline = ol\<rparr>))))"

text \<open>\<open>os.path.splitext(p)[0]\<close>, as \<open>main\<close> uses it to name the output file: the path up to
  its last dot, when that dot comes after the last \<open>/\<close> and after a character of the file
  name that is not a dot; the whole path otherwise.\<close>

definition splitext_root :: "pstr \<Rightarrow> pstr" where
  "splitext_root p =
     (let name = basename p;
          ext = rev (takeWhile (\<lambda>c. c \<noteq> 46) (rev name));
          stem = take (length name - length ext - 1) name
      in if list_ex (\<lambda>c. c = 46) name \<and> list_ex (\<lambda>c. c \<noteq> 46) stem
         then take (length p - length ext - 1) p
         else p)"

section \<open>Definitions used to state and to run the properties\<close>

text \<open>An environment for running examples: no code point from 128 on is classified,
  \<open>str.lower\<close> leaves non-ASCII strings alone, and no quotient needs rounding.\<close>

definition plain_env :: py_env where
  "plain_env =
     \<lparr>uni_isspace = (\<lambda>_. False), uni_isupper = (\<lambda>_. False), uni_islower = (\<lambda>_. False),
      uni_istitle = (\<lambda>_. False), uni_isdigit = (\<lambda>_. False), uni_isdecimal = (\<lambda>_. False),
      uni_lower = (\<lambda>s. s), fl = (\<lambda>x. x)\<rparr>"

text \<open>All spans of a document, in the order the loops visit them.\<close>

definition doc_spans :: "document \<Rightarrow> span list" where
  "doc_spans doc = concat (map spans (concat (map block_lines (concat doc))))"

text \<open>\<open>counted k sp\<close>: the span passes the size test of \<open>analyze_font_styles\<close> and its
  rounded size is \<open>k\<close>.\<close>

definition counted :: "int \<Rightarrow> span \<Rightarrow> bool" where
  "counted k sp = (7 < span_size sp \<and> py_round (span_size sp) = k)"

text \<open>The invariant of the outline under construction: no text twice, no empty text, no
  text that the title exclusion skips.\<close>

definition outline_ok :: "pstr \<Rightarrow> entry list \<Rightarrow> bool" where
  "outline_ok ttl ol =
     (distinct (map entry_text ol)
      \<and> (\<forall>e \<in> set ol. entry_text e \<noteq> [] \<and> \<not> (ttl \<noteq> [] \<and> contains ttl (entry_text e))))"

text \<open>The rank of a level: H1 above H2 above H3.\<close>

fun rank :: "level \<Rightarrow> nat" where
  "rank H1 = 3"
| "rank H2 = 2"
| "rank H3 = 1"

subsection \<open>Example documents\<close>

definition text_line :: "string \<Rightarrow> rat \<Rightarrow> string \<Rightarrow> line" where
  "text_line t sz f = \<lparr>spans = [\<lparr>span_text = ustr t, span_size = sz, span_font = ustr f\<rparr>]\<rparr>"

definition text_block :: "line list \<Rightarrow> block" where
  "text_block ls = \<lparr>block_type = 0, block_lines = ls\<rparr>"

definition spans_doc :: "span list \<Rightarrow> document" where
  "spans_doc sps = [[text_block [\<lparr>spans = sps\<rparr>]]]"

text \<open>A two-page report: a title, a numbered heading and a paragraph on the first page;
  the title and the heading again, in other fonts, and a new heading on the second.\<close>

definition sample_doc :: document where
  "sample_doc =
     [[text_block [text_line ''Annual Report'' 24 ''Helvetica-Bold''],
       text_block [text_line ''1. Introduction'' 16 ''Helvetica-Bold''],
       text_block [text_line ''This report describes the results of the year.'' 12 ''Helvetica'']],
      [text_block [text_line ''Annual Report'' 12 ''Helvetica-Bold''],
       text_block [text_line ''1. Introduction'' 14 ''Helvetica''],
       text_block [text_line ''Summary of Results'' 14 ''Helvetica'']]]"

definition sample_path :: pstr where
  "sample_path = ustr ''/app/input/report.pdf''"

text \<open>A page of body text only, and a page whose largest block reads \<open>Memo\<close>.\<close>

definition body_page :: page where
  "body_page =
     [text_block [text_line ''This report describes the results of the year.'' 12 ''Helvetica'']]"

definition memo_page :: page where
  "memo_page =
     [text_block [text_line ''Memo'' 24 ''Helvetica''],
      text_block [text_line ''This report describes the results of the year.'' 12 ''Helvetica'']]"

definition span_a :: span where
  "span_a = \<lparr>span_text = ustr ''abc'', span_size = 12, span_font = ustr ''Helvetica''\<rparr>"

definition span_b :: span where
  "span_b = \<lparr>span_text = ustr ''de'', span_size = 10, span_font = ustr ''Helvetica''\<rparr>"

definition span_c :: span where
  "span_c = \<lparr>span_text = ustr ''f'', span_size = 62 / 5, span_font = ustr ''Helvetica''\<rparr>"

definition span_small :: span where
  "span_small = \<lparr>span_text = ustr ''ghijk'', span_size = 6, span_font = ustr ''Helvetica''\<rparr>"

definition span_tie :: span where
  "span_tie = \<lparr>span_text = ustr ''xy'', span_size = 12, span_font = ustr ''Helvetica''\<rparr>"

definition span_edge :: span where
  "span_edge = \<lparr>span_text = ustr ''ab'', span_size = 29 / 4, span_font = ustr ''Helvetica''\<rparr>"

definition intro_span :: "rat \<Rightarrow> span" where
  "intro_span sz =
     \<lparr>span_text = ustr ''1. Introduction'', span_size = sz, span_font = ustr ''Arial-Bold''\<rparr>"

section \<open>Auxiliary lemmas\<close>

subsection \<open>The classifier\<close>

lemma classify_heading_returns:
  "b \<noteq> 0 \<Longrightarrow> \<exists>r. classify_heading E t sp b = Inr r"
  by (auto simp add: classify_heading_def noise_filter_def first_char_def true_div_def Let_def
      split: sum.splits bool.splits list.splits)

lemma classify_heading_empty: "classify_heading E [] sp b = Inr None"
  by (simp add: classify_heading_def noise_filter_def strip_def)

lemma classify_heading_nonempty:
  "classify_heading E t sp b = Inr (Some lv) \<Longrightarrow> t \<noteq> []"
  using classify_heading_empty [of E sp b] by auto

lemma classify_heading_level:
  assumes "classify_heading E t sp b = Inr (Some l)"
  shows "\<exists>r. true_div E (py_round (span_size sp)) b = Inr r
           \<and> l = (if fl E (9 / 5) < r \<and> is_bold E sp then H1
                  else if fl E (27 / 20) < r \<or> (is_bold E sp \<and> fl E (23 / 20) < r) then H2
                  else H3)"
proof (cases "noise_filter E (strip E t)")
  case (Inl e)
  with assms show ?thesis by (simp add: classify_heading_def)
next
  case (Inr rejected)
  show ?thesis
  proof (cases rejected)
    case True
    with assms Inr show ?thesis by (simp add: classify_heading_def)
  next
    case False
    show ?thesis
    proof (cases "true_div E (py_round (span_size sp)) b")
      case (Inl e)
      with assms Inr False show ?thesis
        by (simp add: classify_heading_def Let_def split: if_splits)
    next
      case ratio: (Inr r)
      with assms Inr False show ?thesis
        by (auto simp add: classify_heading_def Let_def split: if_splits)
    qed
  qed
qed

lemma contains_refl: "contains s s"
  by (cases s) (simp_all add: startswith_def)

subsection \<open>Loops\<close>

lemma for_each_returns:
  assumes "\<And>s x. x \<in> set xs \<Longrightarrow> \<exists>s'. f s x = Inr s'"
  shows "\<exists>s'. for_each f xs s = Inr s'"
  using assms
proof (induction xs arbitrary: s)
  case Nil
  then show ?case by simp
next
  case (Cons x xs)
  then obtain s1 where "f s x = Inr s1" by (meson list.set_intros(1))
  moreover have "\<exists>s'. for_each f xs s1 = Inr s'"
    using Cons by simp
  ultimately show ?case by simp
qed

lemma for_each_invariant:
  assumes "for_each f xs s = Inr s'" and "P s"
    and "\<And>a x a'. P a \<Longrightarrow> f a x = Inr a' \<Longrightarrow> P a'"
  shows "P s'"
  using assms
proof (induction xs arbitrary: s)
  case Nil
  then show ?case by simp
next
  case (Cons x xs)
  then show ?case by (auto split: sum.splits)
qed

lemma fold_concat_lists: "fold f (concat xss) s = fold (fold f) xss s"
  by (induction xss arbitrary: s) simp_all

subsection \<open>Rounding\<close>

lemma py_round_ge_floor: "\<lfloor>x\<rfloor> \<le> py_round x"
  by (simp add: py_round_def Let_def)

lemma py_round_le: "py_round x \<le> \<lfloor>x\<rfloor> + 1"
  by (simp add: py_round_def Let_def)

lemma py_round_int: "py_round (of_int n) = n"
  by (simp add: py_round_def Let_def)

lemma py_round_gt7: "7 < x \<Longrightarrow> 7 \<le> py_round x"
proof -
  assume "7 < x"
  then have "7 \<le> \<lfloor>x\<rfloor>" by linarith
  then show ?thesis using py_round_ge_floor [of x] by linarith
qed

lemma py_round_gt7_imp: "7 < py_round x \<Longrightarrow> 7 < x"
proof -
  assume a: "7 < py_round x"
  have "x \<noteq> 7" using a py_round_int [of 7] by auto
  moreover have "7 \<le> \<lfloor>x\<rfloor>" using a py_round_le [of x] by linarith
  then have "7 \<le> x" by linarith
  ultimately show ?thesis by simp
qed

subsection \<open>The histogram\<close>

lemma bump_keys: "fst ` set (bump h k n) = insert k (fst ` set h)"
  by (induction h k n rule: bump.induct) auto

lemma map_of_bump:
  "map_of (bump h k n) k' =
     (if k' = k then Some ((case map_of h k of None \<Rightarrow> 0 | Some v \<Rightarrow> v) + n) else map_of h k')"
  by (induction h k n rule: bump.induct) auto

lemma distinct_bump: "distinct (map fst h) \<Longrightarrow> distinct (map fst (bump h k n))"
proof (induction h k n rule: bump.induct)
  case (1 k n)
  then show ?case by simp
next
  case (2 k' v h k n)
  have "fst ` set (bump h k n) = insert k (fst ` set h)" by (rule bump_keys)
  with 2 show ?case by auto
qed

lemma font_histogram_flat:
  "font_histogram doc = fold (\<lambda>sp h. count_span h sp) (doc_spans doc) []"
proof -
  have l: "(\<lambda>l h. count_line h l) = fold (\<lambda>sp h. count_span h sp) \<circ> spans"
    by (simp add: fun_eq_iff count_line_def)
  have b: "(\<lambda>b h. count_block h b) = fold (\<lambda>l h. count_line h l) \<circ> block_lines"
    by (simp add: fun_eq_iff count_block_def)
  have p: "(\<lambda>p h. count_page h p) = fold (\<lambda>b h. count_block h b)"
    by (simp add: fun_eq_iff count_page_def)
  show ?thesis
    unfolding font_histogram_def doc_spans_def p b l
    by (simp add: fold_concat_lists fold_map)
qed

lemma distinct_fold_count_span:
  "distinct (map fst h) \<Longrightarrow> distinct (map fst (fold (\<lambda>sp h. count_span h sp) xs h))"
  by (induction xs arbitrary: h) (simp_all add: count_span_def distinct_bump)

lemma keys_fold_count_span:
  "\<forall>k \<in> fst ` set h. 7 \<le> k \<Longrightarrow>
   \<forall>k \<in> fst ` set (fold (\<lambda>sp h. count_span h sp) xs h). 7 \<le> k"
proof (induction xs arbitrary: h)
  case Nil
  then show ?case by simp
next
  case (Cons sp xs)
  have "\<forall>k \<in> fst ` set (count_span h sp). 7 \<le> k"
  proof (cases "7 < span_size sp")
    case True
    then have "7 \<le> py_round (span_size sp)" by (rule py_round_gt7)
    with True Cons.prems show ?thesis
      unfolding count_span_def by (simp only: bump_keys if_True) blast
  next
    case False
    with Cons.prems show ?thesis by (simp add: count_span_def)
  qed
  then show ?case using Cons.IH by simp
qed

lemma map_of_fold_count_span:
  "map_of (fold (\<lambda>sp h. count_span h sp) xs h) k =
     (if filter (counted k) xs = [] then map_of h k
      else Some ((case map_of h k of None \<Rightarrow> 0 | Some v \<Rightarrow> v)
                 + sum_list (map (\<lambda>sp. length (span_text sp)) (filter (counted k) xs))))"
proof (induction xs arbitrary: h)
  case Nil
  then show ?case by simp
next
  case (Cons sp xs)
  show ?case
  proof (cases "counted k sp")
    case True
    then have "map_of (count_span h sp) k =
        Some ((case map_of h k of None \<Rightarrow> 0 | Some v \<Rightarrow> v) + length (span_text sp))"
      by (simp add: count_span_def counted_def map_of_bump)
    with True show ?thesis by (simp add: Cons.IH)
  next
    case False
    then have "map_of (count_span h sp) k = map_of h k"
      by (auto simp add: count_span_def counted_def map_of_bump)
    with False show ?thesis by (simp add: Cons.IH)
  qed
qed

lemma map_of_font_histogram:
  "map_of (font_histogram doc) k =
     (if filter (counted k) (doc_spans doc) = [] then None
      else Some (sum_list (map (\<lambda>sp. length (span_text sp)) (filter (counted k) (doc_spans doc)))))"
  by (simp add: font_histogram_flat map_of_fold_count_span)

lemma distinct_font_histogram: "distinct (map fst (font_histogram doc))"
  by (simp add: font_histogram_flat distinct_fold_count_span)

lemma font_histogram_keys: "\<forall>k \<in> fst ` set (font_histogram doc). 7 \<le> k"
  unfolding font_histogram_flat by (rule keys_fold_count_span) simp

lemma font_histogram_perm:
  assumes "mset (doc_spans d1) = mset (doc_spans d2)"
  shows "set (font_histogram d1) = set (font_histogram d2)"
proof -
  have f: "mset (filter (counted k) (doc_spans d1)) = mset (filter (counted k) (doc_spans d2))" for k
    by (simp only: mset_filter assms)
  have e: "filter (counted k) (doc_spans d1) = [] \<longleftrightarrow> filter (counted k) (doc_spans d2) = []" for k
  proof -
    have "filter (counted k) (doc_spans d1) = [] \<longleftrightarrow> mset (filter (counted k) (doc_spans d1)) = {#}"
      by (simp only: mset_zero_iff)
    also have "\<dots> \<longleftrightarrow> mset (filter (counted k) (doc_spans d2)) = {#}"
      by (simp only: f)
    also have "\<dots> \<longleftrightarrow> filter (counted k) (doc_spans d2) = []"
      by (simp only: mset_zero_iff)
    finally show ?thesis .
  qed
  have s: "sum_list (map g (filter (counted k) (doc_spans d1)))
         = sum_list (map g (filter (counted k) (doc_spans d2)))" for k and g :: "span \<Rightarrow> nat"
  proof -
    have "sum_mset (mset (map g (filter (counted k) (doc_spans d1))))
        = sum_mset (mset (map g (filter (counted k) (doc_spans d2))))"
      by (simp only: mset_map f)
    then show ?thesis by (simp only: sum_mset_sum_list)
  qed
  have "map_of (font_histogram d1) k = map_of (font_histogram d2) k" for k
    unfolding map_of_font_histogram by (simp only: e s)
  then have "map_of (font_histogram d1) = map_of (font_histogram d2)"
    by (rule ext)
  then show ?thesis
    by (simp only: map_of_inject_set [OF distinct_font_histogram distinct_font_histogram])
qed

subsection \<open>The baseline\<close>

lemma max_key_mem: "max_key kv h \<in> fst ` set (kv # h)"
  by (induction kv h rule: max_key.induct) auto

lemma max_key_is_max:
  "\<exists>v. (max_key kv h, v) \<in> set (kv # h) \<and> (\<forall>(k', v') \<in> set (kv # h). v' \<le> v)"
proof (induction kv h rule: max_key.induct)
  case (1 k v)
  then show ?case by simp
next
  case (2 k v k' v' h)
  show ?case
  proof (cases "v < v'")
    case True
    with 2 obtain w where "(max_key (k', v') h, w) \<in> set ((k', v') # h)"
      and "\<forall>(a, b) \<in> set ((k', v') # h). b \<le> w" by auto
    with True show ?thesis by (intro exI [of _ w]) auto
  next
    case False
    with 2 obtain w where "(max_key (k, v) h, w) \<in> set ((k, v) # h)"
      and "\<forall>(a, b) \<in> set ((k, v) # h). b \<le> w" by auto
    with False show ?thesis by (intro exI [of _ w]) auto
  qed
qed

lemma analyze_unique_max:
  assumes "(k, v) \<in> set (font_histogram d)"
    and "\<forall>(k', v') \<in> set (font_histogram d). k' \<noteq> k \<longrightarrow> v' < v"
  shows "analyze_font_styles d = k"
proof (cases "font_histogram d")
  case Nil
  with assms(1) show ?thesis by simp
next
  case (Cons kv h)
  then have a: "analyze_font_styles d = max_key kv h" by (simp add: analyze_font_styles_def)
  obtain w where w: "(max_key kv h, w) \<in> set (font_histogram d)"
    and top: "\<forall>(k', v') \<in> set (font_histogram d). v' \<le> w"
    using max_key_is_max [of kv h] Cons by auto
  from top assms(1) have "v \<le> w" by auto
  with assms(2) w have "max_key kv h = k" by fastforce
  with a show ?thesis by simp
qed

lemma analyze_font_styles_ge7: "7 \<le> analyze_font_styles doc"
proof (cases "font_histogram doc")
  case Nil
  then show ?thesis by (simp add: analyze_font_styles_def)
next
  case (Cons kv h)
  then have "analyze_font_styles doc \<in> fst ` set (font_histogram doc)"
    using max_key_mem [of kv h] by (simp add: analyze_font_styles_def)
  then show ?thesis using font_histogram_keys by blast
qed

subsection \<open>The outline\<close>

lemma process_line_cases:
  assumes "process_line E ttl b pg ol l = Inr ol'"
  shows "ol' = ol \<or>
    (\<exists>lv. ol' = ol @ [\<lparr>entry_level = lv, entry_text = line_text E l, entry_page = pg + 1\<rparr>]
       \<and> line_text E l \<noteq> []
       \<and> \<not> (ttl \<noteq> [] \<and> contains ttl (line_text E l))
       \<and> line_text E l \<notin> entry_text ` set ol)"
proof (cases "spans l")
  case Nil
  with assms show ?thesis by (simp add: process_line_def)
next
  case (Cons first_span rest)
  show ?thesis
  proof (cases "ttl \<noteq> [] \<and> contains ttl (line_text E l)")
    case True
    with assms Cons show ?thesis by (simp add: process_line_def)
  next
    case skip: False
    show ?thesis
    proof (cases "classify_heading E (line_text E l) first_span b")
      case (Inl e)
      with assms Cons skip show ?thesis by (simp add: process_line_def)
    next
      case (Inr r)
      show ?thesis
      proof (cases r)
        case None
        with assms Cons skip Inr show ?thesis by (simp add: process_line_def)
      next
        case (Some lv)
        have ne: "line_text E l \<noteq> []"
          using Inr Some classify_heading_nonempty by blast
        show ?thesis
        proof (cases "list_ex (\<lambda>d. entry_text d = line_text E l) ol")
          case True
          with assms Cons skip Inr Some show ?thesis by (simp add: process_line_def)
        next
          case False
          then have "line_text E l \<notin> entry_text ` set ol"
            by (auto simp add: list_ex_iff)
          moreover have "ol' = ol @ [\<lparr>entry_level = lv, entry_text = line_text E l, entry_page = pg + 1\<rparr>]"
            using assms Cons skip Inr Some False by (simp add: process_line_def)
          ultimately show ?thesis using ne skip by blast
        qed
      qed
    qed
  qed
qed

lemma process_line_ok:
  assumes "process_line E ttl b pg ol l = Inr ol'" and "outline_ok ttl ol"
  shows "outline_ok ttl ol'"
  using process_line_cases [OF assms(1)] assms(2)
  by (auto simp add: outline_ok_def)

lemma process_line_returns:
  assumes "b \<noteq> 0"
  shows "\<exists>ol'. process_line E ttl b pg ol l = Inr ol'"
proof (cases "spans l")
  case Nil
  then show ?thesis by (simp add: process_line_def)
next
  case (Cons first_span rest)
  obtain r where "classify_heading E (line_text E l) first_span b = Inr r"
    using classify_heading_returns [OF assms] by blast
  with Cons show ?thesis
    by (cases r) (simp_all add: process_line_def Let_def)
qed

lemma process_line_skips_title:
  assumes "ttl \<noteq> []" and "contains ttl (line_text E l)"
  shows "process_line E ttl b pg ol l = Inr ol"
  using assms by (cases "spans l") (simp_all add: process_line_def)

lemma process_line_discards_duplicate:
  assumes "b \<noteq> 0" and "list_ex (\<lambda>d. entry_text d = line_text E l) ol"
  shows "process_line E ttl b pg ol l = Inr ol"
proof (cases "spans l")
  case Nil
  then show ?thesis by (simp add: process_line_def)
next
  case (Cons first_span rest)
  obtain r where "classify_heading E (line_text E l) first_span b = Inr r"
    using classify_heading_returns [OF assms(1)] by blast
  with Cons assms(2) show ?thesis
    by (cases r) (simp_all add: process_line_def Let_def)
qed

lemma detect_headings_ok:
  assumes "detect_headings E ttl b doc = Inr ol"
  shows "outline_ok ttl ol"
proof -
  have blk: "outline_ok ttl a'"
    if "outline_ok ttl a" and "process_block E ttl b pg a x = Inr a'" for a a' pg x
    using that(2) that(1) unfolding process_block_def
    by (rule for_each_invariant) (rule process_line_ok)
  have pg: "outline_ok ttl a'"
    if "outline_ok ttl a" and "process_page E ttl b a x = Inr a'" for a a' x
    using that(2) that(1) unfolding process_page_def
    by (rule for_each_invariant) (rule blk)
  have "outline_ok ttl []" by (simp add: outline_ok_def)
  with assms show ?thesis unfolding detect_headings_def
    by (rule for_each_invariant) (rule pg)
qed

lemma detect_headings_returns:
  assumes "b \<noteq> 0"
  shows "\<exists>ol. detect_headings E ttl b doc = Inr ol"
  unfolding detect_headings_def process_page_def process_block_def
  by (intro for_each_returns process_line_returns assms)

lemma extract_returns:
  "\<exists>ol. extract_structure_from_pdf E pdf_path (Some (p # ps)) =
      Inr (Some \<lparr>title = detect_title E pdf_path (analyze_font_styles (p # ps)) p, outline = ol\<rparr>)
    \<and> outline_ok (detect_title E pdf_path (analyze_font_styles (p # ps)) p) ol"
proof -
  have "analyze_font_styles (p # ps) \<noteq> 0"
    using analyze_font_styles_ge7 [of "p # ps"] by linarith
  then obtain ol where ol: "detect_headings E (detect_title E pdf_path (analyze_font_styles (p # ps)) p)
      (analyze_font_styles (p # ps)) (p # ps) = Inr ol"
    using detect_headings_returns by blast
  then have "outline_ok (detect_title E pdf_path (analyze_font_styles (p # ps)) p) ol"
    by (rule detect_headings_ok)
  with ol show ?thesis by (simp add: extract_structure_from_pdf_def Let_def)
qed

lemma extract_outline_ok:
  "\<exists>r. extract_structure_from_pdf E pdf_path (Some doc) = Inr (Some r)
       \<and> outline_ok (title r) (outline r)"
proof (cases doc)
  case Nil
  then show ?thesis by (simp add: extract_structure_from_pdf_def outline_ok_def)
next
  case (Cons p ps)
  obtain ol where "extract_structure_from_pdf E pdf_path (Some (p # ps)) =
      Inr (Some \<lparr>title = detect_title E pdf_path (analyze_font_styles (p # ps)) p, outline = ol\<rparr>)"
    and "outline_ok (detect_title E pdf_path (analyze_font_styles (p # ps)) p) ol"
    using extract_returns by blast
  with Cons show ?thesis by simp
qed

lemma outline_ok_excludes:
  assumes "outline_ok ttl ol" and "contains ttl t"
  shows "t \<notin> entry_text ` set ol"
proof
  assume "t \<in> entry_text ` set ol"
  then obtain e where e: "e \<in> set ol" and t: "t = entry_text e" by blast
  from assms(1) e have ne: "entry_text e \<noteq> []"
    and ex: "\<not> (ttl \<noteq> [] \<and> contains ttl (entry_text e))"
    by (auto simp add: outline_ok_def)
  show False
  proof (cases ttl)
    case Nil
    with assms(2) t ne show False by simp
  next
    case (Cons c cs)
    with assms(2) t ex show False by simp
  qed
qed

section \<open>Properties of the extraction\<close>

subsection \<open>Title fallback\<close>

text \<open>
  C1, as stated, fails: where no title block wins, the returned title is
  \<open>os.path.basename(pdf_path)\<close>, which keeps the extension. For a page of body text
  stored as \<open>/app/input/report.pdf\<close> the title is \<open>report.pdf\<close>, while the file name
  without its extension is \<open>report\<close>.
\<close>

theorem fallback_title_keeps_extension:
  "find_title_block plain_env (analyze_font_styles [body_page]) body_page = None
   \<and> extract_structure_from_pdf plain_env sample_path (Some [body_page]) =
       Inr (Some \<lparr>title = ustr ''report.pdf'', outline = []\<rparr>)
   \<and> splitext_root (basename sample_path) = ustr ''report''
   \<and> ustr ''report.pdf'' \<noteq> splitext_root (basename sample_path)"
  by code_simp

text \<open>
  C1, amended: for every document with at least one page where no title block wins, or
  where the winning block's concatenated title has fewer than 5 characters, extraction
  returns a result whose title is the base name of the document's path, that is the file
  name with its extension.
\<close>

theorem fallback_title_is_basename:
  assumes "case find_title_block E (analyze_font_styles (p # ps)) p of
             None \<Rightarrow> True
           | Some b \<Rightarrow> length (block_title E b) < 5"
  shows "\<exists>ol. extract_structure_from_pdf E pdf_path (Some (p # ps)) =
           Inr (Some \<lparr>title = basename pdf_path, outline = ol\<rparr>)"
proof -
  have "detect_title E pdf_path (analyze_font_styles (p # ps)) p = basename pdf_path"
    using assms by (auto simp add: detect_title_def Let_def split: option.splits)
  then show ?thesis using extract_returns [of E pdf_path p ps] by auto
qed

theorem fallback_title_is_basename_witness:
  "find_title_block plain_env (analyze_font_styles [body_page]) body_page = None
   \<and> (\<exists>ol. extract_structure_from_pdf plain_env sample_path (Some [body_page]) =
          Inr (Some \<lparr>title = ustr ''report.pdf'', outline = ol\<rparr>))
   \<and> map_option (block_title plain_env)
        (find_title_block plain_env (analyze_font_styles [memo_page]) memo_page) =
       Some (ustr ''Memo'')
   \<and> (\<exists>ol. extract_structure_from_pdf plain_env sample_path (Some [memo_page]) =
          Inr (Some \<lparr>title = ustr ''report.pdf'', outline = ol\<rparr>))"
proof -
  have none: "find_title_block plain_env (analyze_font_styles [body_page]) body_page = None"
    by code_simp
  have memo: "map_option (block_title plain_env)
        (find_title_block plain_env (analyze_font_styles [memo_page]) memo_page) =
       Some (ustr ''Memo'')"
    by code_simp
  have len: "length (ustr ''Memo'') < 5"
    by (simp add: ustr_def)
  have base: "basename sample_path = ustr ''report.pdf''"
    by code_simp
  have h1: "case find_title_block plain_env (analyze_font_styles [body_page]) body_page of
              None \<Rightarrow> True | Some b \<Rightarrow> length (block_title plain_env b) < 5"
    by (simp add: none)
  have h2: "case find_title_block plain_env (analyze_font_styles [memo_page]) memo_page of
              None \<Rightarrow> True | Some b \<Rightarrow> length (block_title plain_env b) < 5"
    using memo len by (auto split: option.splits)
  show ?thesis
    using none memo fallback_title_is_basename [OF h1, of sample_path]
      fallback_title_is_basename [OF h2, of sample_path]
    by (simp only: base)
qed

subsection \<open>Documents that cannot be opened, and empty documents\<close>

text \<open>
  C2, as stated, fails: for a document that cannot be opened, the extraction does not
  produce the degenerate result \<open>{"title": "", "outline": []}\<close>.
\<close>

theorem unopened_document_not_degenerate:
  "extract_structure_from_pdf plain_env sample_path None
     \<noteq> Inr (Some \<lparr>title = [], outline = []\<rparr>)"
  by (simp add: extract_structure_from_pdf_def)

text \<open>
  C2, amended: for every document that cannot be opened, the extraction returns Python's
  \<open>None\<close>, no result at all, and no exception leaves it.
\<close>

theorem unopened_document_returns_none:
  "extract_structure_from_pdf E pdf_path None = Inr None"
  by (simp add: extract_structure_from_pdf_def)

text \<open>
  C9: for every document with zero pages, extraction returns exactly
  \<open>{"title": "", "outline": []}\<close>, as a result and not as an error.
\<close>

theorem zero_pages_degenerate:
  "extract_structure_from_pdf E pdf_path (Some []) = Inr (Some \<lparr>title = [], outline = []\<rparr>)"
  by (simp add: extract_structure_from_pdf_def)

subsection \<open>The baseline\<close>

text \<open>
  C3, as stated, fails: two spans of two characters each, one of size 12 and one of size
  10, tie in the histogram, and the estimator returns the size it met first: 12 for one
  order of the same spans, 10 for the other.
\<close>

theorem baseline_depends_on_order:
  "mset (doc_spans (spans_doc [span_tie, span_b])) = mset (doc_spans (spans_doc [span_b, span_tie]))
   \<and> analyze_font_styles (spans_doc [span_tie, span_b]) = 12
   \<and> analyze_font_styles (spans_doc [span_b, span_tie]) = 10"
proof -
  have "doc_spans (spans_doc [span_tie, span_b]) = [span_tie, span_b]"
    and "doc_spans (spans_doc [span_b, span_tie]) = [span_b, span_tie]"
    by (simp_all add: doc_spans_def spans_doc_def text_block_def)
  moreover have "analyze_font_styles (spans_doc [span_tie, span_b]) = 12"
    by code_simp
  moreover have "analyze_font_styles (spans_doc [span_b, span_tie]) = 10"
    by code_simp
  ultimately show ?thesis by simp
qed

text \<open>
  C3, amended: for every two documents with the same multiset of spans, if in the
  histogram of one of them a single rounded size has a strictly larger accumulated
  character count than every other size, the estimator returns that size for both.
\<close>

theorem baseline_permutation_invariant:
  assumes "mset (doc_spans d1) = mset (doc_spans d2)"
    and "(k, v) \<in> set (font_histogram d1)"
    and "\<forall>(k', v') \<in> set (font_histogram d1). k' \<noteq> k \<longrightarrow> v' < v"
  shows "analyze_font_styles d1 = k \<and> analyze_font_styles d2 = k"
proof -
  have same: "set (font_histogram d1) = set (font_histogram d2)"
    using assms(1) by (rule font_histogram_perm)
  have "analyze_font_styles d1 = k"
    using assms(2,3) by (rule analyze_unique_max)
  moreover have "analyze_font_styles d2 = k"
    using assms(2,3) unfolding same by (rule analyze_unique_max)
  ultimately show ?thesis by simp
qed

theorem baseline_permutation_invariant_witness:
  "mset (doc_spans (spans_doc [span_b, span_a, span_small, span_c]))
     = mset (doc_spans (spans_doc [span_c, span_small, span_b, span_a]))
   \<and> font_histogram (spans_doc [span_b, span_a, span_small, span_c]) = [(10, 2), (12, 4)]
   \<and> analyze_font_styles (spans_doc [span_b, span_a, span_small, span_c]) = 12
   \<and> analyze_font_styles (spans_doc [span_c, span_small, span_b, span_a]) = 12"
proof -
  have m: "mset (doc_spans (spans_doc [span_b, span_a, span_small, span_c]))
     = mset (doc_spans (spans_doc [span_c, span_small, span_b, span_a]))"
    by (simp add: doc_spans_def spans_doc_def text_block_def)
  have h: "font_histogram (spans_doc [span_b, span_a, span_small, span_c]) = [(10, 2), (12, 4)]"
    by code_simp
  have i: "(12, 4) \<in> set (font_histogram (spans_doc [span_b, span_a, span_small, span_c]))"
    by (simp add: h)
  have u: "\<forall>(k', v') \<in> set (font_histogram (spans_doc [span_b, span_a, span_small, span_c])).
             k' \<noteq> 12 \<longrightarrow> v' < 4"
    by (simp add: h)
  show ?thesis
    using baseline_permutation_invariant [OF m i u] m h by simp
qed

text \<open>
  C4, as stated, fails: a span of size 7.25 has rounded size 7, which does not exceed 7,
  yet its two characters are accumulated under 7, and a document holding only that span
  gets the baseline 7 instead of the default 12.
\<close>

theorem rounded_size_seven_is_counted:
  "py_round (span_size span_edge) = 7
   \<and> count_span [] span_edge = [(7, 2)]
   \<and> font_histogram (spans_doc [span_edge]) = [(7, 2)]
   \<and> analyze_font_styles (spans_doc [span_edge]) = 7"
  by code_simp

text \<open>
  C4, amended: the baseline histogram accumulates a span's character count under its
  rounded size exactly when the span's size before rounding exceeds 7, which every span
  whose rounded size exceeds 7 does; a span whose size is at most 7 contributes nothing.
  So the entry of a size \<open>k\<close> is the total character count of the spans of size above 7
  that round to \<open>k\<close>, and there is no entry when there is no such span.
\<close>

theorem histogram_counts_sizes_above_seven:
  "(7 < py_round (span_size sp) \<longrightarrow> 7 < span_size sp)
   \<and> map_of (font_histogram doc) k =
       (if filter (counted k) (doc_spans doc) = [] then None
        else Some (sum_list (map (\<lambda>sp. length (span_text sp))
                                 (filter (counted k) (doc_spans doc)))))"
  using py_round_gt7_imp [of "span_size sp"] map_of_font_histogram [of doc k] by blast

theorem histogram_counts_sizes_above_seven_witness:
  "7 < py_round (span_size span_c) \<and> 7 < span_size span_c
   \<and> filter (counted 12) (doc_spans (spans_doc [span_b, span_a, span_small, span_c]))
       = [span_a, span_c]
   \<and> map_of (font_histogram (spans_doc [span_b, span_a, span_small, span_c])) 12 = Some 4
   \<and> map_of (font_histogram (spans_doc [span_b, span_a, span_small, span_c])) 6 = None"
proof -
  have r: "7 < py_round (span_size span_c)"
    by code_simp
  have d: "doc_spans (spans_doc [span_b, span_a, span_small, span_c])
             = [span_b, span_a, span_small, span_c]"
    by (simp add: doc_spans_def spans_doc_def text_block_def)
  have c: "\<not> counted 12 span_b" "counted 12 span_a" "\<not> counted 12 span_small" "counted 12 span_c"
    "\<not> counted 6 span_b" "\<not> counted 6 span_a" "\<not> counted 6 span_small" "\<not> counted 6 span_c"
    by code_simp+
  have l: "length (span_text span_a) = 3" "length (span_text span_c) = 1"
    by code_simp+
  show ?thesis
    using r
      histogram_counts_sizes_above_seven
        [of span_c "spans_doc [span_b, span_a, span_small, span_c]" 12]
      histogram_counts_sizes_above_seven
        [of span_c "spans_doc [span_b, span_a, span_small, span_c]" 6]
    by (simp add: d c l)
qed

subsection \<open>Title exclusion and duplicates\<close>

text \<open>
  C5: a line whose joined text is contained in the selected title, in particular one whose
  text equals the title, is skipped before it is classified; and for every document the
  extraction returns a result in whose outline no entry has a text that is contained in
  the title or equal to it.
\<close>

theorem title_lines_never_in_outline:
  "(ttl \<noteq> [] \<and> contains ttl (line_text E l) \<longrightarrow> process_line E ttl b pg ol l = Inr ol)
   \<and> (\<exists>r. extract_structure_from_pdf E pdf_path (Some doc) = Inr (Some r)
          \<and> (\<forall>t. contains (title r) t \<or> t = title r \<longrightarrow> t \<notin> entry_text ` set (outline r)))"
proof (rule conjI)
  show "ttl \<noteq> [] \<and> contains ttl (line_text E l) \<longrightarrow> process_line E ttl b pg ol l = Inr ol"
    by (simp add: process_line_skips_title)
next
  obtain r where r: "extract_structure_from_pdf E pdf_path (Some doc) = Inr (Some r)"
    and ok: "outline_ok (title r) (outline r)"
    using extract_outline_ok by blast
  have "t \<notin> entry_text ` set (outline r)" if "contains (title r) t \<or> t = title r" for t
  proof -
    from that have "contains (title r) t" using contains_refl by auto
    with ok show ?thesis by (rule outline_ok_excludes)
  qed
  then have "\<forall>t. contains (title r) t \<or> t = title r \<longrightarrow> t \<notin> entry_text ` set (outline r)"
    by (intro allI impI)
  with r show "\<exists>r. extract_structure_from_pdf E pdf_path (Some doc) = Inr (Some r)
          \<and> (\<forall>t. contains (title r) t \<or> t = title r \<longrightarrow> t \<notin> entry_text ` set (outline r))"
    by (intro exI [of _ r] conjI)
qed

theorem title_lines_never_in_outline_witness:
  "classify_heading plain_env (ustr ''Annual Report'')
       (hd (spans (text_line ''Annual Report'' 12 ''Helvetica-Bold''))) 12 = Inr (Some H3)
   \<and> process_line plain_env (ustr ''Annual Report'') 12 1 []
       (text_line ''Annual Report'' 12 ''Helvetica-Bold'') = Inr []
   \<and> extract_structure_from_pdf plain_env sample_path (Some sample_doc) =
       Inr (Some \<lparr>title = ustr ''Annual Report'',
         outline = [\<lparr>entry_level = H2, entry_text = ustr ''1. Introduction'', entry_page = 1\<rparr>,
                    \<lparr>entry_level = H3, entry_text = ustr ''Summary of Results'', entry_page = 2\<rparr>]\<rparr>)
   \<and> ustr ''Annual Report'' \<notin> entry_text `
        set [\<lparr>entry_level = H2, entry_text = ustr ''1. Introduction'', entry_page = 1\<rparr>,
             \<lparr>entry_level = H3, entry_text = ustr ''Summary of Results'', entry_page = 2\<rparr>]"
proof -
  have c: "classify_heading plain_env (ustr ''Annual Report'')
       (hd (spans (text_line ''Annual Report'' 12 ''Helvetica-Bold''))) 12 = Inr (Some H3)"
    by code_simp
  have n: "ustr ''Annual Report'' \<noteq> []"
    by (simp add: ustr_def)
  have s: "contains (ustr ''Annual Report'')
             (line_text plain_env (text_line ''Annual Report'' 12 ''Helvetica-Bold''))"
    by code_simp
  have run: "extract_structure_from_pdf plain_env sample_path (Some sample_doc) =
       Inr (Some \<lparr>title = ustr ''Annual Report'',
         outline = [\<lparr>entry_level = H2, entry_text = ustr ''1. Introduction'', entry_page = 1\<rparr>,
                    \<lparr>entry_level = H3, entry_text = ustr ''Summary of Results'', entry_page = 2\<rparr>]\<rparr>)"
    by code_simp
  note T = title_lines_never_in_outline
        [of "ustr ''Annual Report''" plain_env "text_line ''Annual Report'' 12 ''Helvetica-Bold''"
            12 1 "[]" sample_path sample_doc]
  have skip: "process_line plain_env (ustr ''Annual Report'') 12 1 []
       (text_line ''Annual Report'' 12 ''Helvetica-Bold'') = Inr []"
    using conjunct1 [OF T] n s by simp
  from conjunct2 [OF T] obtain r where r: "extract_structure_from_pdf plain_env sample_path (Some sample_doc) = Inr (Some r)"
    and ex: "\<forall>t. contains (title r) t \<or> t = title r \<longrightarrow> t \<notin> entry_text ` set (outline r)"
    by (elim exE conjE)
  from r have t: "title r = ustr ''Annual Report''"
    and o: "outline r = [\<lparr>entry_level = H2, entry_text = ustr ''1. Introduction'', entry_page = 1\<rparr>,
                    \<lparr>entry_level = H3, entry_text = ustr ''Summary of Results'', entry_page = 2\<rparr>]"
    unfolding run by auto
  from spec [OF ex, of "ustr ''Annual Report''"] t
  have "ustr ''Annual Report'' \<notin> entry_text ` set (outline r)"
    by simp
  then have last: "ustr ''Annual Report'' \<notin> entry_text `
        set [\<lparr>entry_level = H2, entry_text = ustr ''1. Introduction'', entry_page = 1\<rparr>,
             \<lparr>entry_level = H3, entry_text = ustr ''Summary of Results'', entry_page = 2\<rparr>]"
    unfolding o .
  show ?thesis
    by (intro conjI) (rule c skip run last)+
qed


text \<open>
  C6: for every document the extraction returns a result in whose outline no two entries
  have the same text; and a line whose text already occurs in the outline being built
  leaves that outline as it is, whatever its page and level, so the first occurrence stays.
\<close>

theorem outline_texts_distinct:
  "(b \<noteq> 0 \<and> list_ex (\<lambda>d. entry_text d = line_text E l) ol \<longrightarrow>
      process_line E ttl b pg ol l = Inr ol)
   \<and> (\<exists>r. extract_structure_from_pdf E pdf_path (Some doc) = Inr (Some r)
          \<and> distinct (map entry_text (outline r)))"
proof (rule conjI)
  show "b \<noteq> 0 \<and> list_ex (\<lambda>d. entry_text d = line_text E l) ol \<longrightarrow>
      process_line E ttl b pg ol l = Inr ol"
    by (simp add: process_line_discards_duplicate)
next
  obtain r where r: "extract_structure_from_pdf E pdf_path (Some doc) = Inr (Some r)"
    and ok: "outline_ok (title r) (outline r)"
    using extract_outline_ok by blast
  from ok have "distinct (map entry_text (outline r))"
    by (simp add: outline_ok_def)
  with r show "\<exists>r. extract_structure_from_pdf E pdf_path (Some doc) = Inr (Some r)
          \<and> distinct (map entry_text (outline r))"
    by (intro exI [of _ r] conjI)
qed

theorem outline_texts_distinct_witness:
  "classify_heading plain_env (ustr ''1. Introduction'')
       (hd (spans (text_line ''1. Introduction'' 14 ''Helvetica''))) 12 = Inr (Some H3)
   \<and> process_line plain_env (ustr ''Annual Report'') 12 1
       [\<lparr>entry_level = H2, entry_text = ustr ''1. Introduction'', entry_page = 1\<rparr>]
       (text_line ''1. Introduction'' 14 ''Helvetica'')
       = Inr [\<lparr>entry_level = H2, entry_text = ustr ''1. Introduction'', entry_page = 1\<rparr>]
   \<and> extract_structure_from_pdf plain_env sample_path (Some sample_doc) =
       Inr (Some \<lparr>title = ustr ''Annual Report'',
         outline = [\<lparr>entry_level = H2, entry_text = ustr ''1. Introduction'', entry_page = 1\<rparr>,
                    \<lparr>entry_level = H3, entry_text = ustr ''Summary of Results'', entry_page = 2\<rparr>]\<rparr>)
   \<and> distinct [ustr ''1. Introduction'', ustr ''Summary of Results'']"
proof -
  have c: "classify_heading plain_env (ustr ''1. Introduction'')
       (hd (spans (text_line ''1. Introduction'' 14 ''Helvetica''))) 12 = Inr (Some H3)"
    by code_simp
  have d: "list_ex (\<lambda>d. entry_text d = line_text plain_env (text_line ''1. Introduction'' 14 ''Helvetica''))
             [\<lparr>entry_level = H2, entry_text = ustr ''1. Introduction'', entry_page = 1\<rparr>]"
    by code_simp
  have run: "extract_structure_from_pdf plain_env sample_path (Some sample_doc) =
       Inr (Some \<lparr>title = ustr ''Annual Report'',
         outline = [\<lparr>entry_level = H2, entry_text = ustr ''1. Introduction'', entry_page = 1\<rparr>,
                    \<lparr>entry_level = H3, entry_text = ustr ''Summary of Results'', entry_page = 2\<rparr>]\<rparr>)"
    by code_simp
  note T = outline_texts_distinct
        [of 12 plain_env "text_line ''1. Introduction'' 14 ''Helvetica''"
            "[\<lparr>entry_level = H2, entry_text = ustr ''1. Introduction'', entry_page = 1\<rparr>]"
            "ustr ''Annual Report''" 1 sample_path sample_doc]
  have keep: "process_line plain_env (ustr ''Annual Report'') 12 1
       [\<lparr>entry_level = H2, entry_text = ustr ''1. Introduction'', entry_page = 1\<rparr>]
       (text_line ''1. Introduction'' 14 ''Helvetica'')
       = Inr [\<lparr>entry_level = H2, entry_text = ustr ''1. Introduction'', entry_page = 1\<rparr>]"
    using T d by simp
  from T obtain r where r: "extract_structure_from_pdf plain_env sample_path (Some sample_doc) = Inr (Some r)"
    and di: "distinct (map entry_text (outline r))"
    by blast
  from r have o: "outline r = [\<lparr>entry_level = H2, entry_text = ustr ''1. Introduction'', entry_page = 1\<rparr>,
                    \<lparr>entry_level = H3, entry_text = ustr ''Summary of Results'', entry_page = 2\<rparr>]"
    unfolding run by auto
  from di have last: "distinct [ustr ''1. Introduction'', ustr ''Summary of Results'']"
    unfolding o by simp
  show ?thesis
    by (intro conjI) (rule c keep run last)+
qed



subsection \<open>The classifier\<close>

text \<open>
  C7: for every two lines with the same boldness and the same list-marker status that
  are both assigned a heading level, the line whose size ratio is at least the other's
  gets a level of equal or higher rank.
\<close>

theorem level_monotone_in_size_ratio:
  assumes "is_bold E s1 = is_bold E s2"
    and "is_list_marker E (strip E t1) = is_list_marker E (strip E t2)"
    and "classify_heading E t1 s1 b1 = Inr (Some l1)"
    and "classify_heading E t2 s2 b2 = Inr (Some l2)"
    and "true_div E (py_round (span_size s1)) b1 = Inr r1"
    and "true_div E (py_round (span_size s2)) b2 = Inr r2"
    and "r2 \<le> r1"
  shows "rank l2 \<le> rank l1"
proof -
  have l1: "l1 = (if fl E (9 / 5) < r1 \<and> is_bold E s1 then H1
                  else if fl E (27 / 20) < r1 \<or> (is_bold E s1 \<and> fl E (23 / 20) < r1) then H2
                  else H3)"
    using classify_heading_level [OF assms(3)] assms(5) by simp
  have l2: "l2 = (if fl E (9 / 5) < r2 \<and> is_bold E s2 then H1
                  else if fl E (27 / 20) < r2 \<or> (is_bold E s2 \<and> fl E (23 / 20) < r2) then H2
                  else H3)"
    using classify_heading_level [OF assms(4)] assms(6) by simp
  show ?thesis
    unfolding l1 l2 using assms(1) assms(7) by auto
qed

theorem level_monotone_in_size_ratio_witness:
  "is_bold plain_env (intro_span 24) = is_bold plain_env (intro_span 16)
   \<and> classify_heading plain_env (ustr ''1. Introduction'') (intro_span 24) 12 = Inr (Some H1)
   \<and> classify_heading plain_env (ustr ''1. Introduction'') (intro_span 16) 12 = Inr (Some H2)
   \<and> true_div plain_env (py_round (span_size (intro_span 24))) 12 = Inr 2
   \<and> true_div plain_env (py_round (span_size (intro_span 16))) 12 = Inr (4 / 3)
   \<and> (4 / 3 :: rat) \<le> 2
   \<and> rank H2 \<le> rank H1"
proof -
  have b: "is_bold plain_env (intro_span 24) = is_bold plain_env (intro_span 16)"
    by code_simp
  have c1: "classify_heading plain_env (ustr ''1. Introduction'') (intro_span 24) 12 = Inr (Some H1)"
    by code_simp
  have c2: "classify_heading plain_env (ustr ''1. Introduction'') (intro_span 16) 12 = Inr (Some H2)"
    by code_simp
  have r1: "true_div plain_env (py_round (span_size (intro_span 24))) 12 = Inr 2"
    by code_simp
  have r2: "true_div plain_env (py_round (span_size (intro_span 16))) 12 = Inr (4 / 3)"
    by code_simp
  have le: "(4 / 3 :: rat) \<le> 2"
    by simp
  show ?thesis
    using b c1 c2 r1 r2 le level_monotone_in_size_ratio [OF b refl c1 c2 r1 r2 le]
    by blast
qed

text \<open>
  C8: the line \<open>background and related work\<close> is rejected by the classifier, which
  returns not-a-heading for it, for every span (so every font size and font name) and
  every baseline.
\<close>

theorem background_and_related_work_rejected:
  "classify_heading E (ustr ''background and related work'') sp b = Inr None"
  by (simp add: classify_heading_def noise_filter_def strip_def ustr_def ch_isspace_def
      ch_isupper_def ch_isdigit_def ch_islower_def ch_istitle_def islower_def split_def
      startswith_def endswith_def first_char_def Let_def)

text \<open>
  C10: for every text, span and baseline, \<open>classify_heading\<close> never raises IndexError,
  the first character being read only from a text of at least 3 characters; and when the
  baseline is positive it raises nothing and returns H1, H2, H3 or not-a-heading.
\<close>

theorem classify_heading_total:
  "classify_heading E t sp b \<noteq> Inl IndexError
   \<and> (0 < b \<longrightarrow> (\<exists>r. classify_heading E t sp b = Inr r
                       \<and> r \<in> {None, Some H1, Some H2, Some H3}))"
proof -
  have "classify_heading E t sp b \<noteq> Inl IndexError"
    by (auto simp add: classify_heading_def noise_filter_def first_char_def true_div_def Let_def
        split: sum.splits bool.splits list.splits)
  moreover have "\<exists>r. classify_heading E t sp b = Inr r \<and> r \<in> {None, Some H1, Some H2, Some H3}"
    if "0 < b"
  proof -
    from that have "b \<noteq> 0" by simp
    then obtain r where r: "classify_heading E t sp b = Inr r"
      using classify_heading_returns by blast
    have "r \<in> {None, Some H1, Some H2, Some H3}"
    proof (cases r)
      case None
      then show ?thesis by simp
    next
      case (Some l)
      then show ?thesis by (cases l) simp_all
    qed
    with r show ?thesis by blast
  qed
  ultimately show ?thesis by blast
qed

theorem classify_heading_total_witness:
  "(0 :: int) < 12
   \<and> classify_heading plain_env (ustr ''1. Introduction'') (intro_span 24) 12 = Inr (Some H1)
   \<and> classify_heading plain_env (ustr ''1. Introduction'') (intro_span 24) 12 \<noteq> Inl IndexError"
proof -
  have c: "classify_heading plain_env (ustr ''1. Introduction'') (intro_span 24) 12 = Inr (Some H1)"
    by code_simp
  show ?thesis
    using c classify_heading_total [of plain_env "ustr ''1. Introduction''" "intro_span 24" 12]
    by simp
qed

end
